theory Spec2Isabelle
  imports Complex_Main
begin

section \<open>The wheel picker of \<^verbatim>\<open>src/components/ar-picker/ar-picker.ts\<close>\<close>

text \<open>
  The component keeps its scroll state in private fields of the element and changes
  them in event handlers and in the animation-frame callback \<^verbatim>\<open>_animatePhysics\<close>.
  The embedding below passes the element around as a record and returns it updated.

  JavaScript numbers are modelled as \<^typ>\<open>real\<close>: arithmetic is exact, there is no
  rounding error, no \<^verbatim>\<open>NaN\<close> and no infinity. The frame step divides by the
  magnitude of the pending displacement, which is not zero where it does, and by the
  shrunken animation time, which is not zero when \<^verbatim>\<open>animationDuration\<close> is not; the
  theorems that depend on the values so computed assume a positive duration (the
  default is 180). The easing function and its inverse come from the external library
  \<^verbatim>\<open>bezier-easing\<close>; they are fields of the record, as they are properties of
  the element, and theorems state what they need of them.
\<close>

subsection \<open>Constants and numeric primitives\<close>

definition ITEM_HEIGHT :: real where
  "ITEM_HEIGHT = 24"

definition EFFECTIVELY_ZERO :: real where
  "EFFECTIVELY_ZERO = 1 / 10 ^ 10"

text \<open>\<^verbatim>\<open>approxEq\<close> with its default third argument, the only way it is called.\<close>

definition approxEq :: "real \<Rightarrow> real \<Rightarrow> bool" where
  "approxEq value1 value2 \<longleftrightarrow> \<bar>value1 - value2\<bar> \<le> EFFECTIVELY_ZERO"

text \<open>\<^verbatim>\<open>Math.round\<close> rounds to the nearest integer, a half towards plus infinity.\<close>

definition Math_round :: "real \<Rightarrow> int" where
  "Math_round x = \<lfloor>x + 1 / 2\<rfloor>"

definition Math_floor :: "real \<Rightarrow> int" where
  "Math_floor x = \<lfloor>x\<rfloor>"

text \<open>
  The remainder operator \<^verbatim>\<open>%\<close> truncates the quotient towards zero, so the result
  has the sign of the dividend. It is only used with the divisor \<^verbatim>\<open>ITEM_HEIGHT\<close>.
\<close>

definition js_rem :: "real \<Rightarrow> real \<Rightarrow> real" where
  "js_rem a b = a - b * of_int (if 0 \<le> a / b then \<lfloor>a / b\<rfloor> else \<lceil>a / b\<rceil>)"

text \<open>Reading an array out of range gives \<^verbatim>\<open>undefined\<close>, here \<open>None\<close>.\<close>

definition js_index :: "'a list \<Rightarrow> int \<Rightarrow> 'a option" where
  "js_index xs i = (if 0 \<le> i \<and> i < int (length xs) then Some (xs ! nat i) else None)"

subsection \<open>The element and its host\<close>

record touch =
  touchIdentifier :: int
  screenY :: real

text \<open>
  The fields of the element that the handlers read and write, and the part of the host
  they act on: the queue of requested animation frames, the queue of running timers,
  the next fresh handle (handles are positive, hence truthy) and the \<^verbatim>\<open>select\<close>
  events dispatched so far, each with its \<^verbatim>\<open>detail.selected\<close>. A field that is
  \<^verbatim>\<open>undefined\<close> or \<^verbatim>\<open>null\<close> is \<open>None\<close>.
\<close>

record picker =
  items :: "string list"
  animationDuration :: real
  easingFunction :: "real \<Rightarrow> real"
  inverseEasingFunction :: "real \<Rightarrow> real"
  pendingScroll :: real
  currentScroll :: real
  isExternalForceActive :: bool
  selectedItem :: "string option"
  lastTimestamp :: "real option"
  animating :: "nat option"
  debounceTimer :: "nat option"
  trackedTouch :: "touch option"
  frameQueue :: "nat list"
  timerQueue :: "nat list"
  nextHandle :: nat
  dispatched :: "string option list"

datatype error = RangeError

text \<open>
  The element after its constructor, with the item list the page has set. The
  constructor never assigns \<^verbatim>\<open>_isExternalForceActive\<close> (it assigns a misspelt
  field), so the flag starts \<^verbatim>\<open>undefined\<close>, which every test of it reads as false.
\<close>

definition constructed :: "string list \<Rightarrow> (real \<Rightarrow> real) \<Rightarrow> (real \<Rightarrow> real) \<Rightarrow> picker" where
  "constructed its ease inv_ease =
     \<lparr> items = its, animationDuration = 180,
       easingFunction = ease, inverseEasingFunction = inv_ease,
       pendingScroll = 0, currentScroll = 0, isExternalForceActive = False,
       selectedItem = None, lastTimestamp = None, animating = None,
       debounceTimer = None, trackedTouch = None,
       frameQueue = [], timerQueue = [], nextHandle = 1, dispatched = [] \<rparr>"

definition requestAnimationFrame :: "picker \<Rightarrow> nat \<times> picker" where
  "requestAnimationFrame s =
     (nextHandle s, s\<lparr>frameQueue := frameQueue s @ [nextHandle s], nextHandle := nextHandle s + 1\<rparr>)"

definition cancelAnimationFrame :: "nat \<Rightarrow> picker \<Rightarrow> picker" where
  "cancelAnimationFrame h s = s\<lparr>frameQueue := removeAll h (frameQueue s)\<rparr>"

definition setTimeout :: "picker \<Rightarrow> nat \<times> picker" where
  "setTimeout s =
     (nextHandle s, s\<lparr>timerQueue := timerQueue s @ [nextHandle s], nextHandle := nextHandle s + 1\<rparr>)"

definition clearTimeout :: "nat \<Rightarrow> picker \<Rightarrow> picker" where
  "clearTimeout h s = s\<lparr>timerQueue := removeAll h (timerQueue s)\<rparr>"

definition dispatchSelect :: "string option \<Rightarrow> picker \<Rightarrow> picker" where
  "dispatchSelect sel s = s\<lparr>dispatched := dispatched s @ [sel]\<rparr>"

subsection \<open>Starting and stopping the loop\<close>

definition selectedIndex :: "picker \<Rightarrow> int" where
  "selectedIndex s = Math_round (currentScroll s / ITEM_HEIGHT)"

definition stopAnimation :: "picker \<Rightarrow> picker" where
  "stopAnimation s =
     (let s1 = s\<lparr>pendingScroll := 0, lastTimestamp := None\<rparr>
      in case animating s1 of
           Some h \<Rightarrow> (cancelAnimationFrame h s1)\<lparr>animating := None\<rparr>
         | None \<Rightarrow> s1)"

text \<open>The handle that \<^verbatim>\<open>requestAnimationFrame\<close> returns here is dropped, as in the source.\<close>

definition startPhysicsAnimation :: "picker \<Rightarrow> picker" where
  "startPhysicsAnimation s =
     (if animating s = None then snd (requestAnimationFrame s) else s)"

text \<open>\<^verbatim>\<open>this._animating = requestAnimationFrame(this._animatePhysics)\<close>\<close>

definition rescheduleFrame :: "picker \<Rightarrow> picker" where
  "rescheduleFrame s = (case requestAnimationFrame s of (h, s1) \<Rightarrow> s1\<lparr>animating := Some h\<rparr>)"

subsection \<open>Stability, selection and the stabilization pulse\<close>

text \<open>\<^verbatim>\<open>_isWheelStable\<close> returns a boolean and may write \<^verbatim>\<open>_pendingScroll\<close>.\<close>

definition isWheelStable :: "picker \<Rightarrow> bool \<times> picker" where
  "isWheelStable s =
     (if approxEq (pendingScroll s) 0
      then (approxEq (js_rem (currentScroll s) ITEM_HEIGHT) 0 \<or> isExternalForceActive s,
            s\<lparr>pendingScroll := 0\<rparr>)
      else (False, s))"

definition onWheelStable :: "picker \<Rightarrow> picker" where
  "onWheelStable s =
     (let item = js_index (items s) (selectedIndex s)
      in stopAnimation
           (if \<not> isExternalForceActive s \<and> selectedItem s \<noteq> item
            then dispatchSelect item (s\<lparr>selectedItem := item\<rparr>)
            else s))"

definition stabilizeWheel :: "picker \<Rightarrow> picker" where
  "stabilizeWheel s =
     startPhysicsAnimation
       (if js_rem (currentScroll s) ITEM_HEIGHT > ITEM_HEIGHT / 2
        then s\<lparr>pendingScroll := ITEM_HEIGHT - js_rem (currentScroll s) ITEM_HEIGHT\<rparr>
        else s\<lparr>pendingScroll := - js_rem (currentScroll s) ITEM_HEIGHT\<rparr>)"

subsection \<open>The frame step\<close>

text \<open>The offset from the previous stable position, in the direction of travel.\<close>

definition scrollOffset :: "picker \<Rightarrow> real" where
  "scrollOffset s =
     (if pendingScroll s > 0
      then js_rem (ITEM_HEIGHT + currentScroll s) ITEM_HEIGHT
      else js_rem (ITEM_HEIGHT - js_rem (currentScroll s) ITEM_HEIGHT) ITEM_HEIGHT)"

definition shrunkenAnimationTime :: "picker \<Rightarrow> real" where
  "shrunkenAnimationTime s =
     min (animationDuration s) (animationDuration s * ITEM_HEIGHT / \<bar>pendingScroll s\<bar>)"

text \<open>The differential distance \<^verbatim>\<open>dx\<close> for the elapsed time \<open>delta\<close>, before the limit.\<close>

definition curveIncrement :: "real \<Rightarrow> picker \<Rightarrow> real" where
  "curveIncrement delta s =
     (let t = inverseEasingFunction s (scrollOffset s / ITEM_HEIGHT) * shrunkenAnimationTime s
      in easingFunction s (min 1 ((t + delta) / shrunkenAnimationTime s)) * ITEM_HEIGHT
         - easingFunction s (min 1 (t / shrunkenAnimationTime s)) * ITEM_HEIGHT)"

text \<open>\<^verbatim>\<open>dx\<close> after "apply maximum limits".\<close>

definition appliedIncrement :: "real \<Rightarrow> picker \<Rightarrow> real" where
  "appliedIncrement delta s =
     sgn (pendingScroll s) * min \<bar>pendingScroll s\<bar> (curveIncrement delta s)"

text \<open>The new \<^verbatim>\<open>_currentScroll\<close>: clamped, then snapped to an integer within the tolerance.\<close>

definition animateScroll :: "real \<Rightarrow> picker \<Rightarrow> real" where
  "animateScroll dx s =
     (let c = max 0 (min (ITEM_HEIGHT * real (length (items s))) (currentScroll s + dx))
      in if approxEq c (real_of_int (Math_round c)) then real_of_int (Math_round c) else c)"

text \<open>The sentinel checks: hard absorption of a force that pushes past an end.\<close>

definition absorbAtBounds :: "picker \<Rightarrow> picker" where
  "absorbAtBounds s =
     (if (currentScroll s = 0 \<and> pendingScroll s < 0)
         \<or> (currentScroll s \<ge> ITEM_HEIGHT * (real (length (items s)) - 1) \<and> pendingScroll s > 0)
      then s\<lparr>pendingScroll := 0\<rparr>
      else s)"

text \<open>
  \<^verbatim>\<open>_animatePhysics(now)\<close>. \<^verbatim>\<open>!this._lastTimestamp\<close> holds for \<^verbatim>\<open>undefined\<close>,
  \<^verbatim>\<open>null\<close> and \<open>0\<close>. \<^verbatim>\<open>_applyPhysics\<close> writes styles of the rows only and is left out.
\<close>

definition bootstrapFrame :: "real \<Rightarrow> picker \<Rightarrow> picker" where
  "bootstrapFrame now s = rescheduleFrame (s\<lparr>lastTimestamp := Some now\<rparr>)"

definition settleFrame :: "real \<Rightarrow> real \<Rightarrow> picker \<Rightarrow> error + picker" where
  "settleFrame now lastTs s =
     (let delta = now - lastTs
      in if scrollOffset s < 0 then Inl RangeError
         else
           (let dx = appliedIncrement delta s
            in Inr (rescheduleFrame
                 (s\<lparr>currentScroll := animateScroll dx s,
                    pendingScroll := pendingScroll s - dx,
                    lastTimestamp := Some now\<rparr>))))"

definition stepFrame :: "real \<Rightarrow> real \<Rightarrow> picker \<Rightarrow> error + picker" where
  "stepFrame now lastTs s0 =
     (let s = absorbAtBounds s0
      in if approxEq (pendingScroll s) 0
         then (case isWheelStable s of
                 (isStable, s1) \<Rightarrow>
                   if isStable then Inr (onWheelStable s1)
                   else Inr (rescheduleFrame ((stabilizeWheel s1)\<lparr>lastTimestamp := Some now\<rparr>)))
         else settleFrame now lastTs s)"

definition animatePhysics :: "real \<Rightarrow> picker \<Rightarrow> error + picker" where
  "animatePhysics now s =
     (case lastTimestamp s of
        None \<Rightarrow> Inr (bootstrapFrame now s)
      | Some lastTs \<Rightarrow>
          if lastTs = 0 then Inr (bootstrapFrame now s) else stepFrame now lastTs s)"

subsection \<open>Input handlers\<close>

text \<open>
  A click carries what the handler reads from the page: the clicked row's
  \<^verbatim>\<open>data-value\<close> and \<^verbatim>\<open>offsetTop\<close>, and the position and height of the leading
  whitespace element.
\<close>

record click =
  dataValue :: string
  itemOffsetTop :: real
  whitespaceOffsetTop :: real
  whitespaceOffsetHeight :: real

definition onItemClick :: "click \<Rightarrow> picker \<Rightarrow> picker" where
  "onItemClick c s =
     dispatchSelect (Some (dataValue c))
       (startPhysicsAnimation
          (s\<lparr>pendingScroll := pendingScroll s
               + (itemOffsetTop c
                  - (currentScroll s + whitespaceOffsetTop c + whitespaceOffsetHeight c))\<rparr>))"

definition onKeyDown :: "string \<Rightarrow> picker \<Rightarrow> picker" where
  "onKeyDown key s =
     (if key = ''ArrowUp''
      then startPhysicsAnimation (s\<lparr>pendingScroll := pendingScroll s - ITEM_HEIGHT\<rparr>)
      else if key = ''ArrowDown''
      then startPhysicsAnimation (s\<lparr>pendingScroll := pendingScroll s + ITEM_HEIGHT\<rparr>)
      else s)"

definition findTouch :: "touch \<Rightarrow> touch list \<Rightarrow> touch option" where
  "findTouch tracked changedTouches =
     find (\<lambda>t. touchIdentifier t = touchIdentifier tracked) changedTouches"

definition onTouchStart :: "touch list \<Rightarrow> picker \<Rightarrow> picker" where
  "onTouchStart changedTouches s =
     (case trackedTouch s of
        None \<Rightarrow> s\<lparr>trackedTouch := (case changedTouches of [] \<Rightarrow> None | t # _ \<Rightarrow> Some t),
                  isExternalForceActive := True\<rparr>
      | Some _ \<Rightarrow> s)"

definition onTouchEnd :: "touch list \<Rightarrow> picker \<Rightarrow> picker" where
  "onTouchEnd changedTouches s =
     (case trackedTouch s of
        None \<Rightarrow> s
      | Some tracked \<Rightarrow>
          (case findTouch tracked changedTouches of
             None \<Rightarrow> s
           | Some _ \<Rightarrow>
               startPhysicsAnimation (s\<lparr>trackedTouch := None, isExternalForceActive := False\<rparr>)))"

definition onTouchMove :: "touch list \<Rightarrow> picker \<Rightarrow> picker" where
  "onTouchMove changedTouches s =
     (case trackedTouch s of
        None \<Rightarrow> s
      | Some tracked \<Rightarrow>
          (case findTouch tracked changedTouches of
             None \<Rightarrow> s
           | Some currentTouch \<Rightarrow>
               (startPhysicsAnimation
                  (s\<lparr>pendingScroll := pendingScroll s + (screenY tracked - screenY currentTouch)\<rparr>))
               \<lparr>trackedTouch := Some currentTouch\<rparr>))"

text \<open>The callback of the debounce timer.\<close>

definition onDebounceTimeout :: "picker \<Rightarrow> picker" where
  "onDebounceTimeout s0 =
     (let s = s0\<lparr>isExternalForceActive := False, debounceTimer := None\<rparr>
      in case isWheelStable s of
           (isStable, s1) \<Rightarrow> if \<not> isStable then stabilizeWheel s1 else s1)"

definition onWheelHandler :: "real \<Rightarrow> picker \<Rightarrow> picker" where
  "onWheelHandler deltaY s =
     (let smoothScroll = (deltaY = real_of_int (Math_round deltaY))
      in if \<not> smoothScroll
         then
           (let s1 = s\<lparr>isExternalForceActive := True\<rparr>;
                s2 = (case debounceTimer s1 of Some h \<Rightarrow> clearTimeout h s1 | None \<Rightarrow> s1);
                s3 = (case setTimeout s2 of (h, s') \<Rightarrow> s'\<lparr>debounceTimer := Some h\<rparr>)
            in startPhysicsAnimation (s3\<lparr>pendingScroll := pendingScroll s3 + deltaY\<rparr>))
         else
           startPhysicsAnimation
             (s\<lparr>pendingScroll := pendingScroll s
                  + real_of_int (Math_floor (deltaY / ITEM_HEIGHT)) * ITEM_HEIGHT\<rparr>))"

subsection \<open>What the host delivers\<close>

text \<open>
  The host runs one callback at a time: an input event, the oldest requested frame
  with the frame's timestamp, or the oldest running timer. A frame or a timeout with
  nothing queued does nothing.
\<close>

datatype event =
    Wheel real
  | TouchStart "touch list"
  | TouchMove "touch list"
  | TouchEnd "touch list"
  | KeyDown string
  | ItemClick click
  | Frame real
  | Timeout

fun deliver :: "event \<Rightarrow> picker \<Rightarrow> error + picker" where
  "deliver (Wheel deltaY) s = Inr (onWheelHandler deltaY s)"
| "deliver (TouchStart ts) s = Inr (onTouchStart ts s)"
| "deliver (TouchMove ts) s = Inr (onTouchMove ts s)"
| "deliver (TouchEnd ts) s = Inr (onTouchEnd ts s)"
| "deliver (KeyDown key) s = Inr (onKeyDown key s)"
| "deliver (ItemClick c) s = Inr (onItemClick c s)"
| "deliver (Frame now) s =
     (case frameQueue s of
        [] \<Rightarrow> Inr s
      | h # hs \<Rightarrow> animatePhysics now (s\<lparr>frameQueue := hs\<rparr>))"
| "deliver Timeout s =
     (case timerQueue s of
        [] \<Rightarrow> Inr s
      | h # hs \<Rightarrow> Inr (onDebounceTimeout (s\<lparr>timerQueue := hs\<rparr>)))"

text \<open>A sequence of deliveries stops at the first uncaught error.\<close>

fun run :: "event list \<Rightarrow> picker \<Rightarrow> error + picker" where
  "run [] s = Inr s"
| "run (e # es) s = (case deliver e s of Inl err \<Rightarrow> Inl err | Inr s1 \<Rightarrow> run es s1)"

subsection \<open>Auxiliary notions and concrete inputs\<close>

text \<open>The range the data model gives \<^verbatim>\<open>currentScroll\<close>.\<close>

definition inRange :: "picker \<Rightarrow> bool" where
  "inRange s \<longleftrightarrow>
     0 \<le> currentScroll s \<and> currentScroll s \<le> ITEM_HEIGHT * real (length (items s))"

text \<open>The running debounce timers are exactly the one the element holds, if any.\<close>

definition oneTimer :: "picker \<Rightarrow> bool" where
  "oneTimer s \<longleftrightarrow> timerQueue s = (case debounceTimer s of None \<Rightarrow> [] | Some h \<Rightarrow> [h])"

text \<open>
  The easing that \<^verbatim>\<open>bezier(a, a, b, b)\<close> returns, a linear curve that is its own
  inverse. Concrete runs use it, since the default curve has no closed form.
\<close>

definition linearEasing :: "real \<Rightarrow> real" where
  "linearEasing x = x"

definition fiveItems :: "string list" where
  "fiveItems = [''a'', ''b'', ''c'', ''d'', ''e'']"

definition picker5 :: picker where
  "picker5 = constructed fiveItems linearEasing linearEasing"

text \<open>A click on the row of the second item, 24 units below the selection marker.\<close>

definition clickSecondRow :: click where
  "clickSecondRow =
     \<lparr>dataValue = ''b'', itemOffsetTop = 72, whitespaceOffsetTop = 0, whitespaceOffsetHeight = 48\<rparr>"

text \<open>
  The element of five items when the callback of the second frame runs, after an
  ArrowUp key at rest and a first frame at time 1000.
\<close>

definition pushedBelowStart :: picker where
  "pushedBelowStart =
     picker5\<lparr>pendingScroll := - 24, lastTimestamp := Some 1000, animating := Some 2,
       nextHandle := 3\<rparr>"

text \<open>
  The element when the callback of the third frame runs, after a touch has dragged the
  wheel onto the second item and is still held.
\<close>

definition heldOnSecondItem :: picker where
  "heldOnSecondItem =
     picker5\<lparr>currentScroll := 24, isExternalForceActive := True, lastTimestamp := Some 1200,
       animating := Some 3, nextHandle := 4,
       trackedTouch := Some \<lparr>touchIdentifier = 0, screenY = 276\<rparr>\<rparr>"

text \<open>Between two items, nothing pending.\<close>

definition betweenItems :: picker where
  "betweenItems = picker5\<lparr>currentScroll := 41\<rparr>"

text \<open>A residue of \<open>2 ^ - 40\<close>, below the tolerance, is pending.\<close>

definition nearlyRested :: picker where
  "nearlyRested = picker5\<lparr>pendingScroll := 1 / 2 ^ 40\<rparr>"

text \<open>
  The element of five items when the callback of the second frame runs, after an
  ArrowDown key at rest and a first frame at time 1000.
\<close>

definition settlingStart :: picker where
  "settlingStart =
     picker5\<lparr>pendingScroll := 24, lastTimestamp := Some 1000, animating := Some 2,
       nextHandle := 3\<rparr>"

subsection \<open>Notions for the run after one ArrowDown\<close>






text \<open>
  How many more frames a state near the second item needs: one when it rests on the
  item, two when the pending displacement leads exactly onto it, three when it rests
  beside the item (the stabilization pulse comes first), four and five when the
  displacement leads beside it.
\<close>

definition rank :: "picker \<Rightarrow> nat" where
  "rank s =
     (if approxEq (pendingScroll s) 0 then (if currentScroll s = 24 then 1 else 3)
      else if currentScroll s + pendingScroll s = 24 then 2
      else if currentScroll s = 24 then 4 else 5)"

text \<open>
  \<open>n\<close> frames suffice when each frame takes at least \<open>q\<close> off a displacement that is
  larger than \<open>1 / 10000\<close>.
\<close>

definition framesSuffice :: "real \<Rightarrow> nat \<Rightarrow> picker \<Rightarrow> bool" where
  "framesSuffice q n s \<longleftrightarrow>
     (if 1 / 10000 < pendingScroll s then pendingScroll s \<le> real (n - 5) * q else rank s \<le> n)"

text \<open>
  The element of five items at rest on the first item while it remembers the second:
  an ArrowDown key has selected \<^verbatim>\<open>b\<close>, then a trackpad has scrolled the wheel back.
\<close>

definition staleSelection :: picker where
  "staleSelection =
     picker5\<lparr>selectedItem := Some ''b'', nextHandle := 8, dispatched := [Some ''b'']\<rparr>"

text \<open>
  Timestamps of ten frames, at least 60 ms apart. With the linear curve the second and
  the third frame each leave the wheel \<open>9 * 10 ^ - 11\<close> past an integer position.
\<close>

definition driftingFrames :: "real list" where
  "driftingFrames =
     [1000, 1060 + 27 / (4 * 10 ^ 10), 1120 + 27 / (2 * 10 ^ 10),
      1400, 1600, 1800, 2000, 2200, 2400, 2600]"

section \<open>Properties\<close>

subsection \<open>Fields that the operations leave alone\<close>

lemma startPhysicsAnimation_fields [simp]:
  "pendingScroll (startPhysicsAnimation s) = pendingScroll s"
  "currentScroll (startPhysicsAnimation s) = currentScroll s"
  "items (startPhysicsAnimation s) = items s"
  "dispatched (startPhysicsAnimation s) = dispatched s"
  "isExternalForceActive (startPhysicsAnimation s) = isExternalForceActive s"
  "selectedItem (startPhysicsAnimation s) = selectedItem s"
  by (simp_all add: startPhysicsAnimation_def requestAnimationFrame_def)

lemma rescheduleFrame_fields [simp]:
  "pendingScroll (rescheduleFrame s) = pendingScroll s"
  "currentScroll (rescheduleFrame s) = currentScroll s"
  "items (rescheduleFrame s) = items s"
  "dispatched (rescheduleFrame s) = dispatched s"
  "isExternalForceActive (rescheduleFrame s) = isExternalForceActive s"
  "selectedItem (rescheduleFrame s) = selectedItem s"
  by (simp_all add: rescheduleFrame_def requestAnimationFrame_def)

lemma stopAnimation_fields [simp]:
  "pendingScroll (stopAnimation s) = 0"
  "currentScroll (stopAnimation s) = currentScroll s"
  "items (stopAnimation s) = items s"
  "dispatched (stopAnimation s) = dispatched s"
  "isExternalForceActive (stopAnimation s) = isExternalForceActive s"
  "selectedItem (stopAnimation s) = selectedItem s"
  by (simp_all add: stopAnimation_def cancelAnimationFrame_def Let_def split: option.splits)

lemma stabilizeWheel_fields [simp]:
  "currentScroll (stabilizeWheel s) = currentScroll s"
  "items (stabilizeWheel s) = items s"
  "dispatched (stabilizeWheel s) = dispatched s"
  "isExternalForceActive (stabilizeWheel s) = isExternalForceActive s"
  "selectedItem (stabilizeWheel s) = selectedItem s"
  by (simp_all add: stabilizeWheel_def)

lemma absorbAtBounds_fields [simp]:
  "currentScroll (absorbAtBounds s) = currentScroll s"
  "items (absorbAtBounds s) = items s"
  "dispatched (absorbAtBounds s) = dispatched s"
  "isExternalForceActive (absorbAtBounds s) = isExternalForceActive s"
  "selectedItem (absorbAtBounds s) = selectedItem s"
  by (simp_all add: absorbAtBounds_def)

lemma isWheelStable_fields [simp]:
  "currentScroll (snd (isWheelStable s)) = currentScroll s"
  "items (snd (isWheelStable s)) = items s"
  "dispatched (snd (isWheelStable s)) = dispatched s"
  "isExternalForceActive (snd (isWheelStable s)) = isExternalForceActive s"
  "selectedItem (snd (isWheelStable s)) = selectedItem s"
  by (simp_all add: isWheelStable_def)

lemma onWheelStable_fields [simp]:
  "currentScroll (onWheelStable s) = currentScroll s"
  "items (onWheelStable s) = items s"
  "isExternalForceActive (onWheelStable s) = isExternalForceActive s"
  "pendingScroll (onWheelStable s) = 0"
  by (simp_all add: onWheelStable_def dispatchSelect_def Let_def)

lemmas picker_defs =
  onKeyDown_def onItemClick_def startPhysicsAnimation_def requestAnimationFrame_def
  constructed_def animatePhysics_def bootstrapFrame_def stepFrame_def settleFrame_def
  rescheduleFrame_def absorbAtBounds_def isWheelStable_def onWheelStable_def
  stabilizeWheel_def stopAnimation_def cancelAnimationFrame_def dispatchSelect_def
  selectedIndex_def scrollOffset_def shrunkenAnimationTime_def curveIncrement_def
  appliedIncrement_def animateScroll_def approxEq_def EFFECTIVELY_ZERO_def ITEM_HEIGHT_def
  Math_round_def Math_floor_def js_rem_def js_index_def linearEasing_def fiveItems_def
  picker5_def clickSecondRow_def pushedBelowStart_def heldOnSecondItem_def
  betweenItems_def nearlyRested_def settlingStart_def Let_def

subsection \<open>The concrete states are reached\<close>

lemma pushedBelowStart_reached:
  "run [KeyDown ''ArrowUp'', Frame 1000] picker5 = Inr (pushedBelowStart\<lparr>frameQueue := [2]\<rparr>)"
  by (simp add: picker_defs)

lemma settlingStart_reached:
  "run [KeyDown ''ArrowDown'', Frame 1000] picker5 = Inr (settlingStart\<lparr>frameQueue := [2]\<rparr>)"
  by (simp add: picker_defs)

lemma heldOnSecondItem_reached:
  "run [TouchStart [\<lparr>touchIdentifier = 0, screenY = 300\<rparr>],
        TouchMove [\<lparr>touchIdentifier = 0, screenY = 276\<rparr>], Frame 1000, Frame 1200] picker5
     = Inr (heldOnSecondItem\<lparr>frameQueue := [3]\<rparr>)"
  by (simp add: picker_defs onTouchStart_def onTouchMove_def findTouch_def)

subsection \<open>The remainder by the item height\<close>

lemma js_rem_nonneg_eq:
  "0 \<le> a \<Longrightarrow> js_rem a ITEM_HEIGHT = a - 24 * real_of_int \<lfloor>a / 24\<rfloor>"
  by (simp add: js_rem_def ITEM_HEIGHT_def)

lemma js_rem_range:
  assumes "0 \<le> a"
  shows "0 \<le> js_rem a ITEM_HEIGHT" and "js_rem a ITEM_HEIGHT < 24"
proof -
  have below: "real_of_int \<lfloor>a / 24\<rfloor> \<le> a / 24"
    by (rule of_int_floor_le)
  have above: "a / 24 < real_of_int \<lfloor>a / 24\<rfloor> + 1"
    by linarith
  show "0 \<le> js_rem a ITEM_HEIGHT"
    unfolding js_rem_nonneg_eq [OF assms] using below by linarith
  show "js_rem a ITEM_HEIGHT < 24"
    unfolding js_rem_nonneg_eq [OF assms] using above by linarith
qed

lemma js_rem_multiple: "js_rem (ITEM_HEIGHT * real n) ITEM_HEIGHT = 0"
  by (simp add: js_rem_def ITEM_HEIGHT_def)

lemma scrollOffset_nonneg: "0 \<le> currentScroll s \<Longrightarrow> 0 \<le> scrollOffset s"
  unfolding scrollOffset_def
  using js_rem_range [of "currentScroll s"] js_rem_range(1) [of "ITEM_HEIGHT + currentScroll s"]
    js_rem_range(1) [of "ITEM_HEIGHT - js_rem (currentScroll s) ITEM_HEIGHT"]
  by (auto simp: ITEM_HEIGHT_def)

lemma scrollOffset_less: "0 \<le> currentScroll s \<Longrightarrow> scrollOffset s < 24"
  unfolding scrollOffset_def
  using js_rem_range [of "currentScroll s"] js_rem_range(2) [of "ITEM_HEIGHT + currentScroll s"]
    js_rem_range(2) [of "ITEM_HEIGHT - js_rem (currentScroll s) ITEM_HEIGHT"]
  by (auto simp: ITEM_HEIGHT_def)

subsection \<open>The frame step never fails on a position that is not negative\<close>

lemma stepFrame_no_error:
  assumes "0 \<le> currentScroll s"
  shows "\<exists>s'. stepFrame now lastTs s = Inr s'"
  using scrollOffset_nonneg [of "absorbAtBounds s"] assms
  by (simp add: stepFrame_def settleFrame_def Let_def split: prod.splits)

lemma animatePhysics_no_error:
  assumes "0 \<le> currentScroll s"
  shows "\<exists>s'. animatePhysics now s = Inr s'"
  using stepFrame_no_error [OF assms]
  by (simp add: animatePhysics_def split: option.splits)

subsection \<open>The range of the scroll position is an invariant\<close>

lemma Math_round_range:
  assumes "0 \<le> c" and "c \<le> 24 * real n"
  shows "0 \<le> real_of_int (Math_round c)" and "real_of_int (Math_round c) \<le> 24 * real n"
proof -
  have "0 \<le> \<lfloor>c + 1 / 2\<rfloor>"
    using assms(1) by simp
  then show "0 \<le> real_of_int (Math_round c)"
    by (simp add: Math_round_def)
  have "c + 1 / 2 < real_of_int (24 * int n) + 1"
    using assms(2) by simp
  then have "\<lfloor>c + 1 / 2\<rfloor> < 24 * int n + 1"
    by (simp only: floor_less_iff of_int_add of_int_1)
  then have "\<lfloor>c + 1 / 2\<rfloor> \<le> 24 * int n"
    by simp
  then have "real_of_int \<lfloor>c + 1 / 2\<rfloor> \<le> real_of_int (24 * int n)"
    by (simp only: of_int_le_iff)
  then show "real_of_int (Math_round c) \<le> 24 * real n"
    by (simp add: Math_round_def)
qed

lemma animateScroll_range:
  "0 \<le> animateScroll dx s \<and> animateScroll dx s \<le> ITEM_HEIGHT * real (length (items s))"
proof -
  define c where "c = max 0 (min (24 * real (length (items s))) (currentScroll s + dx))"
  have c: "0 \<le> c" "c \<le> 24 * real (length (items s))"
    by (simp_all add: c_def)
  have "animateScroll dx s
      = (if approxEq c (real_of_int (Math_round c)) then real_of_int (Math_round c) else c)"
    by (simp add: animateScroll_def c_def ITEM_HEIGHT_def Let_def)
  then show ?thesis
    using c Math_round_range [OF c] by (simp add: ITEM_HEIGHT_def)
qed

lemma stepFrame_inRange:
  assumes "inRange s" and "stepFrame now lastTs s = Inr s'"
  shows "inRange s' \<and> items s' = items s"
proof (cases "approxEq (pendingScroll (absorbAtBounds s)) 0")
  case True
  then have "s' = onWheelStable (snd (isWheelStable (absorbAtBounds s)))
     \<or> s' = rescheduleFrame
              ((stabilizeWheel (snd (isWheelStable (absorbAtBounds s))))\<lparr>lastTimestamp := Some now\<rparr>)"
    using assms(2) by (auto simp: stepFrame_def Let_def split: prod.splits if_splits)
  then show ?thesis
    using assms(1) by (auto simp: inRange_def)
next
  case False
  define a where "a = absorbAtBounds s"
  from False have "s' = rescheduleFrame
       (a\<lparr>currentScroll := animateScroll (appliedIncrement (now - lastTs) a) a,
          pendingScroll := pendingScroll a - appliedIncrement (now - lastTs) a,
          lastTimestamp := Some now\<rparr>)"
    using assms(2) by (auto simp: stepFrame_def settleFrame_def Let_def a_def split: if_splits)
  then show ?thesis
    using animateScroll_range [of "appliedIncrement (now - lastTs) a" a]
    by (simp add: inRange_def a_def)
qed

lemma animatePhysics_inRange:
  assumes "inRange s"
  shows "\<exists>s'. animatePhysics now s = Inr s' \<and> inRange s' \<and> items s' = items s"
proof -
  obtain s' where s': "animatePhysics now s = Inr s'"
    using animatePhysics_no_error [of s now] assms by (auto simp: inRange_def)
  have "inRange s' \<and> items s' = items s"
  proof (cases "lastTimestamp s")
    case None
    then show ?thesis
      using s' assms by (auto simp: animatePhysics_def bootstrapFrame_def inRange_def)
  next
    case (Some lastTs)
    show ?thesis
    proof (cases "lastTs = 0")
      case True
      then show ?thesis
        using s' Some assms by (auto simp: animatePhysics_def bootstrapFrame_def inRange_def)
    next
      case False
      then have "stepFrame now lastTs s = Inr s'"
        using s' Some by (simp add: animatePhysics_def)
      then show ?thesis
        using stepFrame_inRange assms by blast
    qed
  qed
  then show ?thesis
    using s' by blast
qed

lemma inRange_frameQueue [simp]: "inRange (s\<lparr>frameQueue := q\<rparr>) = inRange s"
  by (simp add: inRange_def)

lemma onDebounceTimeout_position:
  "currentScroll (onDebounceTimeout s) = currentScroll s \<and> items (onDebounceTimeout s) = items s"
proof -
  define t where "t = s\<lparr>isExternalForceActive := False, debounceTimer := None\<rparr>"
  have "onDebounceTimeout s = stabilizeWheel (snd (isWheelStable t))
      \<or> onDebounceTimeout s = snd (isWheelStable t)"
    by (simp add: onDebounceTimeout_def t_def Let_def split: prod.splits)
  moreover have "currentScroll t = currentScroll s" "items t = items s"
    by (simp_all add: t_def)
  ultimately show ?thesis
    by auto
qed

lemma handlers_position:
  "currentScroll (onWheelHandler d s) = currentScroll s \<and> items (onWheelHandler d s) = items s"
  "currentScroll (onTouchStart ts s) = currentScroll s \<and> items (onTouchStart ts s) = items s"
  "currentScroll (onTouchMove ts s) = currentScroll s \<and> items (onTouchMove ts s) = items s"
  "currentScroll (onTouchEnd ts s) = currentScroll s \<and> items (onTouchEnd ts s) = items s"
  "currentScroll (onKeyDown key s) = currentScroll s \<and> items (onKeyDown key s) = items s"
  "currentScroll (onItemClick c s) = currentScroll s \<and> items (onItemClick c s) = items s"
  by (simp_all add: onWheelHandler_def onTouchStart_def onTouchMove_def onTouchEnd_def
      onKeyDown_def onItemClick_def dispatchSelect_def setTimeout_def clearTimeout_def Let_def
      split: option.splits prod.splits)

lemma deliver_inRange:
  assumes "inRange s"
  shows "\<exists>s'. deliver e s = Inr s' \<and> inRange s' \<and> items s' = items s"
proof (cases e)
  case (Frame now)
  show ?thesis
  proof (cases "frameQueue s")
    case Nil
    then show ?thesis
      using Frame assms by simp
  next
    case (Cons h hs)
    then show ?thesis
      using Frame assms animatePhysics_inRange [of "s\<lparr>frameQueue := hs\<rparr>" now] by simp
  qed
next
  case Timeout
  then show ?thesis
    using assms onDebounceTimeout_position
    by (cases "timerQueue s") (simp_all add: inRange_def)
qed (use assms handlers_position in \<open>simp_all add: inRange_def\<close>)

lemma run_inRange:
  "inRange s \<Longrightarrow> \<exists>s'. run evs s = Inr s' \<and> inRange s' \<and> items s' = items s"
proof (induction evs arbitrary: s)
  case Nil
  then show ?case
    by simp
next
  case (Cons e evs)
  obtain s1 where s1: "deliver e s = Inr s1" "inRange s1" "items s1 = items s"
    using deliver_inRange [OF Cons.prems] by blast
  then show ?case
    using Cons.IH [OF s1(2)] by auto
qed

lemma absorbed_at_bound:
  assumes "lastTimestamp s = Some lastTs" and "lastTs \<noteq> 0"
    and "(currentScroll s = 0 \<and> pendingScroll s < 0)
       \<or> (currentScroll s = ITEM_HEIGHT * real (length (items s)) \<and> pendingScroll s > 0)"
  shows "\<exists>s'. animatePhysics now s = Inr s' \<and> pendingScroll s' = 0
           \<and> currentScroll s' = currentScroll s"
proof -
  have a: "absorbAtBounds s = s\<lparr>pendingScroll := 0\<rparr>"
    using assms(3) by (auto simp: absorbAtBounds_def ITEM_HEIGHT_def)
  have r: "js_rem (currentScroll s) ITEM_HEIGHT = 0"
    using assms(3) js_rem_multiple [of "length (items s)"] js_rem_multiple [of 0] by auto
  have "stepFrame now lastTs s = Inr (onWheelStable (s\<lparr>pendingScroll := 0\<rparr>))"
    using r by (simp add: stepFrame_def a isWheelStable_def approxEq_def EFFECTIVELY_ZERO_def)
  then show ?thesis
    using assms(1,2) by (simp add: animatePhysics_def)
qed

subsection \<open>The claims\<close>

text \<open>
  C1. From a position in \<open>[0, ITEM_HEIGHT * itemCount]\<close> (the constructed element is at
  \<open>0\<close>) and with a positive animation duration, every sequence of input events, frames
  and timeouts runs without an error and ends with the position in that range; every value that the frame step writes to the
  position is in the range; and a frame step taken at a bound with a displacement that
  pushes past it ends with the displacement at zero and the position unchanged.
\<close>

theorem currentScroll_stays_in_range:
  assumes "0 \<le> currentScroll s"
    and "currentScroll s \<le> ITEM_HEIGHT * real (length (items s))"
    and "0 < animationDuration s"
  shows "(\<exists>s'. run evs s = Inr s' \<and> items s' = items s
            \<and> 0 \<le> currentScroll s' \<and> currentScroll s' \<le> ITEM_HEIGHT * real (length (items s)))
     \<and> (0 \<le> animateScroll dx s \<and> animateScroll dx s \<le> ITEM_HEIGHT * real (length (items s)))
     \<and> (\<forall>lastTs. lastTimestamp s = Some lastTs \<and> lastTs \<noteq> 0
           \<and> ((currentScroll s = 0 \<and> pendingScroll s < 0)
              \<or> (currentScroll s = ITEM_HEIGHT * real (length (items s)) \<and> pendingScroll s > 0))
          \<longrightarrow> (\<exists>s'. animatePhysics now s = Inr s' \<and> pendingScroll s' = 0
                     \<and> currentScroll s' = currentScroll s))"
proof -
  have "inRange s"
    using assms(1,2) by (simp add: inRange_def)
  then obtain s' where "run evs s = Inr s'" "inRange s'" "items s' = items s"
    using run_inRange by blast
  then have "\<exists>s'. run evs s = Inr s' \<and> items s' = items s
            \<and> 0 \<le> currentScroll s' \<and> currentScroll s' \<le> ITEM_HEIGHT * real (length (items s))"
    by (auto simp: inRange_def)
  then show ?thesis
    using animateScroll_range [of dx s] absorbed_at_bound [of s _ now] by blast
qed

theorem currentScroll_stays_in_range_witness:
  "(\<exists>s'. run [Wheel (83 / 2), Frame 1000, Frame 1200, KeyDown ''ArrowUp'', Frame 1216, Timeout]
            picker5 = Inr s'
       \<and> 0 \<le> currentScroll s' \<and> currentScroll s' \<le> 120)
   \<and> (\<exists>s'. animatePhysics 1016 pushedBelowStart = Inr s' \<and> pendingScroll s' = 0
          \<and> currentScroll s' = 0)"
proof -
  have rest: "0 \<le> currentScroll picker5"
    "currentScroll picker5 \<le> ITEM_HEIGHT * real (length (items picker5))"
    "0 < animationDuration picker5"
    by (simp_all add: picker5_def constructed_def ITEM_HEIGHT_def)
  have bound: "0 \<le> currentScroll pushedBelowStart"
    "currentScroll pushedBelowStart \<le> ITEM_HEIGHT * real (length (items pushedBelowStart))"
    "0 < animationDuration pushedBelowStart"
    by (simp_all add: pushedBelowStart_def picker5_def constructed_def ITEM_HEIGHT_def)
  have pushed: "lastTimestamp pushedBelowStart = Some 1000 \<and> (1000::real) \<noteq> 0
      \<and> ((currentScroll pushedBelowStart = 0 \<and> pendingScroll pushedBelowStart < 0)
         \<or> (currentScroll pushedBelowStart
               = ITEM_HEIGHT * real (length (items pushedBelowStart))
             \<and> pendingScroll pushedBelowStart > 0))"
    by (simp add: pushedBelowStart_def picker5_def constructed_def)
  have n: "ITEM_HEIGHT * real (length (items picker5)) = 120"
    by (simp add: picker5_def constructed_def fiveItems_def ITEM_HEIGHT_def)
  have c: "currentScroll pushedBelowStart = 0"
    by (simp add: pushedBelowStart_def picker5_def constructed_def)
  from currentScroll_stays_in_range [OF bound, of "[]" 0 1016] pushed
  have "\<exists>s'. animatePhysics 1016 pushedBelowStart = Inr s' \<and> pendingScroll s' = 0
          \<and> currentScroll s' = currentScroll pushedBelowStart"
    by blast
  moreover from currentScroll_stays_in_range [OF rest,
      of "[Wheel (83 / 2), Frame 1000, Frame 1200, KeyDown ''ArrowUp'', Frame 1216, Timeout]" 0 0]
  have "\<exists>s'. run [Wheel (83 / 2), Frame 1000, Frame 1200, KeyDown ''ArrowUp'', Frame 1216, Timeout]
            picker5 = Inr s'
       \<and> 0 \<le> currentScroll s'
       \<and> currentScroll s' \<le> ITEM_HEIGHT * real (length (items picker5))"
    by blast
  ultimately show ?thesis
    by (simp only: n c)
qed

text \<open>
  C3. While \<^verbatim>\<open>isExternalForceActive\<close> is true, neither \<^verbatim>\<open>_onWheelStable\<close> nor a
  whole frame step dispatches a \<^verbatim>\<open>select\<close> event, whatever the position and the
  pending displacement are.
\<close>

theorem no_select_under_external_force:
  assumes "isExternalForceActive s"
  shows "dispatched (onWheelStable s) = dispatched s
     \<and> (\<forall>now s'. animatePhysics now s = Inr s' \<longrightarrow> dispatched s' = dispatched s)"
proof -
  have stable: "dispatched (onWheelStable t) = dispatched t" if "isExternalForceActive t" for t
    using that by (simp add: onWheelStable_def Let_def)
  have "dispatched s' = dispatched s" if step: "stepFrame now lastTs s = Inr s'" for now lastTs s'
  proof (cases "approxEq (pendingScroll (absorbAtBounds s)) 0")
    case True
    note near_zero = this
    show ?thesis
    proof (cases "fst (isWheelStable (absorbAtBounds s))")
      case True
      with near_zero step
      have "s' = onWheelStable (snd (isWheelStable (absorbAtBounds s)))"
        by (simp add: stepFrame_def Let_def split: prod.splits)
      then show ?thesis
        using stable [of "snd (isWheelStable (absorbAtBounds s))"] assms by simp
    next
      case False
      with near_zero step
      have "s' = rescheduleFrame
          ((stabilizeWheel (snd (isWheelStable (absorbAtBounds s))))\<lparr>lastTimestamp := Some now\<rparr>)"
        by (simp add: stepFrame_def Let_def split: prod.splits)
      then show ?thesis
        by simp
    qed
  next
    case False
    with step show ?thesis
      by (auto simp: stepFrame_def settleFrame_def Let_def split: if_splits)
  qed
  then have "dispatched s' = dispatched s" if "animatePhysics now s = Inr s'" for now s'
    using that by (auto simp: animatePhysics_def bootstrapFrame_def split: option.splits if_splits)
  then show ?thesis
    using stable [OF assms] by blast
qed

theorem no_select_under_external_force_witness:
  "currentScroll heldOnSecondItem = 24 \<and> pendingScroll heldOnSecondItem = 0
   \<and> selectedItem heldOnSecondItem \<noteq> js_index (items heldOnSecondItem) (selectedIndex heldOnSecondItem)
   \<and> dispatched (onWheelStable heldOnSecondItem) = []
   \<and> (\<exists>s'. animatePhysics 1216 heldOnSecondItem = Inr s' \<and> dispatched s' = [] \<and> frameQueue s' = [])"
proof -
  have held: "isExternalForceActive heldOnSecondItem"
    by (simp add: heldOnSecondItem_def)
  have none: "dispatched heldOnSecondItem = []"
    by (simp add: heldOnSecondItem_def picker5_def constructed_def)
  obtain s' where s': "animatePhysics 1216 heldOnSecondItem = Inr s'" "frameQueue s' = []"
    by (simp add: picker_defs)
  from no_select_under_external_force [OF held] s'(1) none
  have "dispatched (onWheelStable heldOnSecondItem) = []" and "dispatched s' = []"
    by simp_all
  moreover have "currentScroll heldOnSecondItem = 24 \<and> pendingScroll heldOnSecondItem = 0
    \<and> selectedItem heldOnSecondItem
        \<noteq> js_index (items heldOnSecondItem) (selectedIndex heldOnSecondItem)"
    by (simp add: picker_defs)
  ultimately show ?thesis
    using s' by blast
qed

text \<open>
  C6. With the position in \<open>[0, ITEM_HEIGHT * itemCount]\<close>, the offset computed in the
  settling branch is not negative, before and after the sentinel checks, and no frame
  step ends in the \<^verbatim>\<open>RangeError\<close>.
\<close>

theorem scrollOffset_never_negative:
  assumes "0 \<le> currentScroll s"
    and "currentScroll s \<le> ITEM_HEIGHT * real (length (items s))"
  shows "0 \<le> scrollOffset s \<and> 0 \<le> scrollOffset (absorbAtBounds s)
     \<and> (\<forall>now. animatePhysics now s \<noteq> Inl RangeError)"
proof -
  have "animatePhysics now s \<noteq> Inl RangeError" for now
    using animatePhysics_no_error [OF assms(1), of now] by auto
  then show ?thesis
    using scrollOffset_nonneg [of s] scrollOffset_nonneg [of "absorbAtBounds s"] assms(1)
    by simp
qed

theorem scrollOffset_never_negative_witness:
  "0 \<le> scrollOffset (betweenItems\<lparr>pendingScroll := - 17, lastTimestamp := Some 1000\<rparr>)
   \<and> (\<forall>now. animatePhysics now (betweenItems\<lparr>pendingScroll := - 17, lastTimestamp := Some 1000\<rparr>)
          \<noteq> Inl RangeError)"
proof -
  define s where "s = betweenItems\<lparr>pendingScroll := - 17, lastTimestamp := Some 1000\<rparr>"
  have lower: "0 \<le> currentScroll s"
    by (simp add: s_def betweenItems_def)
  have upper: "currentScroll s \<le> ITEM_HEIGHT * real (length (items s))"
    by (simp add: s_def betweenItems_def picker5_def constructed_def fiveItems_def ITEM_HEIGHT_def)
  show ?thesis
    using scrollOffset_never_negative [OF lower upper] by (simp add: s_def)
qed

text \<open>
  C7. On a position that is not negative (the range of C1), the stabilization pulse sets
  the pending displacement so that position plus displacement is an integer multiple of
  the item height, the displacement is at most half an item height in magnitude, and
  no item boundary is nearer to the position than the one it leads to.
\<close>

theorem stabilizeWheel_pulse:
  assumes "0 \<le> currentScroll s"
  shows "(\<exists>k::int. currentScroll s + pendingScroll (stabilizeWheel s) = ITEM_HEIGHT * real_of_int k)
     \<and> \<bar>pendingScroll (stabilizeWheel s)\<bar> \<le> ITEM_HEIGHT / 2
     \<and> (\<forall>j::int. \<bar>pendingScroll (stabilizeWheel s)\<bar>
                    \<le> \<bar>ITEM_HEIGHT * real_of_int j - currentScroll s\<bar>)"
proof -
  define q where "q = \<lfloor>currentScroll s / 24\<rfloor>"
  define r where "r = js_rem (currentScroll s) ITEM_HEIGHT"
  have r_eq: "r = currentScroll s - 24 * real_of_int q"
    unfolding r_def q_def by (rule js_rem_nonneg_eq [OF assms])
  have r0: "0 \<le> r" and r24: "r < 24"
    unfolding r_def using js_rem_range [OF assms] by simp_all
  have far: "\<bar>24 * real_of_int j - currentScroll s\<bar> \<ge> min r (24 - r)" for j :: int
  proof (cases "j \<le> q")
    case True
    then have "real_of_int j \<le> real_of_int q"
      by simp
    then show ?thesis
      using r_eq r0 by linarith
  next
    case False
    then have "q + 1 \<le> j"
      by simp
    then have "real_of_int q + 1 \<le> real_of_int j"
      by linarith
    then show ?thesis
      using r_eq r24 by linarith
  qed
  show ?thesis
  proof (cases "r > ITEM_HEIGHT / 2")
    case True
    then have p: "pendingScroll (stabilizeWheel s) = 24 - r"
      by (simp add: stabilizeWheel_def r_def ITEM_HEIGHT_def)
    have "currentScroll s + pendingScroll (stabilizeWheel s) = ITEM_HEIGHT * real_of_int (q + 1)"
      using p r_eq by (simp add: ITEM_HEIGHT_def)
    moreover have "\<bar>pendingScroll (stabilizeWheel s)\<bar> \<le> ITEM_HEIGHT / 2"
      using p True r24 by (simp add: ITEM_HEIGHT_def)
    moreover have "\<bar>pendingScroll (stabilizeWheel s)\<bar>
        \<le> \<bar>ITEM_HEIGHT * real_of_int j - currentScroll s\<bar>" for j :: int
      using far [of j] p True r24 by (simp add: ITEM_HEIGHT_def)
    ultimately show ?thesis
      by blast
  next
    case False
    then have p: "pendingScroll (stabilizeWheel s) = - r"
      by (simp add: stabilizeWheel_def r_def ITEM_HEIGHT_def)
    have "currentScroll s + pendingScroll (stabilizeWheel s) = ITEM_HEIGHT * real_of_int q"
      using p r_eq by (simp add: ITEM_HEIGHT_def)
    moreover have "\<bar>pendingScroll (stabilizeWheel s)\<bar> \<le> ITEM_HEIGHT / 2"
      using p False r0 by (simp add: ITEM_HEIGHT_def)
    moreover have "\<bar>pendingScroll (stabilizeWheel s)\<bar>
        \<le> \<bar>ITEM_HEIGHT * real_of_int j - currentScroll s\<bar>" for j :: int
      using far [of j] p False r0 by (simp add: ITEM_HEIGHT_def)
    ultimately show ?thesis
      by blast
  qed
qed

theorem stabilizeWheel_pulse_witness:
  "approxEq (pendingScroll betweenItems) 0
   \<and> js_rem (currentScroll betweenItems) ITEM_HEIGHT \<noteq> 0
   \<and> pendingScroll (stabilizeWheel betweenItems) = 7
   \<and> (\<exists>k::int. currentScroll betweenItems + pendingScroll (stabilizeWheel betweenItems)
                  = ITEM_HEIGHT * real_of_int k)
   \<and> \<bar>pendingScroll (stabilizeWheel betweenItems)\<bar> \<le> ITEM_HEIGHT / 2"
proof -
  have lower: "0 \<le> currentScroll betweenItems"
    by (simp add: betweenItems_def)
  have "approxEq (pendingScroll betweenItems) 0
      \<and> js_rem (currentScroll betweenItems) ITEM_HEIGHT \<noteq> 0
      \<and> pendingScroll (stabilizeWheel betweenItems) = 7"
    by (simp add: picker_defs)
  then show ?thesis
    using stabilizeWheel_pulse [OF lower] by blast
qed

text \<open>
  C9, as the code has it. \<^verbatim>\<open>_isWheelStable\<close> returns whether the pending displacement
  is within the tolerance of zero and the position is within the tolerance of an item
  boundary or an external force is active. It leaves the position and the force flag
  as they are, and it replaces a pending displacement within the tolerance of zero by
  zero: every other field, and a pending displacement outside the tolerance, is unchanged.
\<close>

theorem isWheelStable_result:
  "fst (isWheelStable s)
     = (approxEq (pendingScroll s) 0
        \<and> (approxEq (js_rem (currentScroll s) ITEM_HEIGHT) 0 \<or> isExternalForceActive s))
   \<and> currentScroll (snd (isWheelStable s)) = currentScroll s
   \<and> isExternalForceActive (snd (isWheelStable s)) = isExternalForceActive s
   \<and> pendingScroll (snd (isWheelStable s))
       = (if approxEq (pendingScroll s) 0 then 0 else pendingScroll s)
   \<and> snd (isWheelStable s) = s\<lparr>pendingScroll := pendingScroll (snd (isWheelStable s))\<rparr>"
  by (simp add: isWheelStable_def)

text \<open>
  C9 as stated fails: with \<open>2 ^ - 40\<close> pending, the check returns with the pending
  displacement changed to zero.
\<close>

theorem isWheelStable_writes_pending_counterexample:
  "pendingScroll (snd (isWheelStable nearlyRested)) \<noteq> pendingScroll nearlyRested"
  by (simp add: isWheelStable_def approxEq_def EFFECTIVELY_ZERO_def nearlyRested_def)

text \<open>
  C10. A wheel event with an integer vertical delta \<open>k\<close> adds
  \<open>floor (k / ITEM_HEIGHT) * ITEM_HEIGHT\<close> to the pending displacement: nothing for
  \<open>0 < k < 24\<close>, a whole item height upwards for \<open>- 24 \<le> k < 0\<close>.
\<close>

theorem wheel_notch_quantized:
  "pendingScroll (onWheelHandler (real_of_int k) s)
     = pendingScroll s + real_of_int (Math_floor (real_of_int k / ITEM_HEIGHT)) * ITEM_HEIGHT
   \<and> (0 < k \<and> k < 24 \<longrightarrow> pendingScroll (onWheelHandler (real_of_int k) s) = pendingScroll s)
   \<and> (- 24 \<le> k \<and> k < 0 \<longrightarrow>
        pendingScroll (onWheelHandler (real_of_int k) s) = pendingScroll s - ITEM_HEIGHT)"
proof -
  have smooth: "real_of_int k = real_of_int (Math_round (real_of_int k))"
    by (simp add: Math_round_def)
  have eq: "pendingScroll (onWheelHandler (real_of_int k) s)
     = pendingScroll s + real_of_int (Math_floor (real_of_int k / ITEM_HEIGHT)) * ITEM_HEIGHT"
    using smooth by (simp add: onWheelHandler_def Let_def)
  have up: "\<lfloor>real_of_int k / 24\<rfloor> = 0" if "0 < k" "k < 24"
    using that by (simp add: floor_eq_iff)
  have down: "\<lfloor>real_of_int k / 24\<rfloor> = - 1" if "- 24 \<le> k" "k < 0"
    using that by (simp add: floor_eq_iff)
  show ?thesis
    using eq up down by (simp add: Math_floor_def ITEM_HEIGHT_def)
qed

theorem wheel_notch_quantized_witness:
  "pendingScroll (onWheelHandler 5 picker5) = 0
   \<and> pendingScroll (onWheelHandler (- 5) picker5) = - 24"
  using wheel_notch_quantized [of 5 picker5] wheel_notch_quantized [of "- 5" picker5]
  by (simp add: picker5_def constructed_def ITEM_HEIGHT_def)

subsection \<open>Selection events and scheduled callbacks\<close>

text \<open>A settle dispatches at most one event, and only for an item other than the remembered one.\<close>

lemma onWheelStable_dispatches_at_most_once:
  "dispatched (onWheelStable s) = dispatched s
   \<or> (dispatched (onWheelStable s) = dispatched s @ [js_index (items s) (selectedIndex s)]
      \<and> selectedItem s \<noteq> js_index (items s) (selectedIndex s)
      \<and> \<not> isExternalForceActive s)"
  by (simp add: onWheelStable_def dispatchSelect_def Let_def)

text \<open>
  C2, the code at a click followed by its settle. The click on the second row
  dispatches \<open>b\<close> at once and does not record it in \<^verbatim>\<open>_selectedItem\<close>; three frames
  later the wheel settles on that row and \<^verbatim>\<open>_onWheelStable\<close> dispatches \<open>b\<close> again,
  although \<open>b\<close> is the selection emitted last.
\<close>

theorem click_then_settle_selects_twice:
  "dispatched (onItemClick clickSecondRow picker5) = [Some ''b'']
   \<and> selectedItem (onItemClick clickSecondRow picker5) = None
   \<and> (case run [ItemClick clickSecondRow, Frame 1000, Frame 1200, Frame 1216] picker5 of
         Inr s \<Rightarrow> dispatched s = [Some ''b'', Some ''b''] \<and> currentScroll s = 24
                  \<and> frameQueue s = []
       | Inl err \<Rightarrow> False)"
  by (simp add: picker_defs)

text \<open>Once \<^verbatim>\<open>_animating\<close> holds a handle, starting the loop does nothing.\<close>

lemma startPhysicsAnimation_when_animating:
  "animating s \<noteq> None \<Longrightarrow> startPhysicsAnimation s = s"
  by (auto simp: startPhysicsAnimation_def)

text \<open>At most one debounce timer is running at any time.\<close>

lemma timers_untouched [simp]:
  "timerQueue (startPhysicsAnimation s) = timerQueue s"
  "debounceTimer (startPhysicsAnimation s) = debounceTimer s"
  "timerQueue (rescheduleFrame s) = timerQueue s"
  "debounceTimer (rescheduleFrame s) = debounceTimer s"
  "timerQueue (stopAnimation s) = timerQueue s"
  "debounceTimer (stopAnimation s) = debounceTimer s"
  "timerQueue (stabilizeWheel s) = timerQueue s"
  "debounceTimer (stabilizeWheel s) = debounceTimer s"
  "timerQueue (absorbAtBounds s) = timerQueue s"
  "debounceTimer (absorbAtBounds s) = debounceTimer s"
  "timerQueue (snd (isWheelStable s)) = timerQueue s"
  "debounceTimer (snd (isWheelStable s)) = debounceTimer s"
  "timerQueue (onWheelStable s) = timerQueue s"
  "debounceTimer (onWheelStable s) = debounceTimer s"
  by (simp_all add: startPhysicsAnimation_def requestAnimationFrame_def rescheduleFrame_def
      stopAnimation_def cancelAnimationFrame_def stabilizeWheel_def absorbAtBounds_def
      isWheelStable_def onWheelStable_def dispatchSelect_def Let_def split: option.splits)

lemma animatePhysics_timers:
  assumes "animatePhysics now s = Inr s'"
  shows "timerQueue s' = timerQueue s \<and> debounceTimer s' = debounceTimer s"
proof -
  have step: "timerQueue t' = timerQueue t \<and> debounceTimer t' = debounceTimer t"
    if "stepFrame now lastTs t = Inr t'" for lastTs t t'
  proof (cases "approxEq (pendingScroll (absorbAtBounds t)) 0")
    case True
    then have "t' = onWheelStable (snd (isWheelStable (absorbAtBounds t)))
       \<or> t' = rescheduleFrame
              ((stabilizeWheel (snd (isWheelStable (absorbAtBounds t))))\<lparr>lastTimestamp := Some now\<rparr>)"
      using that by (auto simp: stepFrame_def Let_def split: prod.splits if_splits)
    then show ?thesis by auto
  next
    case False
    then show ?thesis
      using that by (auto simp: stepFrame_def settleFrame_def Let_def split: if_splits)
  qed
  show ?thesis
    using assms step
    by (auto simp: animatePhysics_def bootstrapFrame_def split: option.splits if_splits)
qed

lemma handlers_timers:
  "timerQueue (onTouchStart ts s) = timerQueue s \<and> debounceTimer (onTouchStart ts s) = debounceTimer s"
  "timerQueue (onTouchMove ts s) = timerQueue s \<and> debounceTimer (onTouchMove ts s) = debounceTimer s"
  "timerQueue (onTouchEnd ts s) = timerQueue s \<and> debounceTimer (onTouchEnd ts s) = debounceTimer s"
  "timerQueue (onKeyDown key s) = timerQueue s \<and> debounceTimer (onKeyDown key s) = debounceTimer s"
  "timerQueue (onItemClick c s) = timerQueue s \<and> debounceTimer (onItemClick c s) = debounceTimer s"
  by (simp_all add: onTouchStart_def onTouchMove_def onTouchEnd_def onKeyDown_def onItemClick_def
      dispatchSelect_def split: option.splits)

lemma deliver_oneTimer:
  assumes "oneTimer s" and "deliver e s = Inr s'"
  shows "oneTimer s'"
proof (cases e)
  case (Wheel d)
  show ?thesis
  proof (cases "d = real_of_int (Math_round d)")
    case True
    then have "s' = startPhysicsAnimation
             (s\<lparr>pendingScroll := pendingScroll s
                  + real_of_int (Math_floor (d / ITEM_HEIGHT)) * ITEM_HEIGHT\<rparr>)"
      using Wheel assms(2) by (simp add: onWheelHandler_def Let_def)
    then show ?thesis
      using assms(1) by (simp add: oneTimer_def)
  next
    case False
    then have "timerQueue s' = [nextHandle s] \<and> debounceTimer s' = Some (nextHandle s)"
      using Wheel assms
      by (auto simp: oneTimer_def onWheelHandler_def setTimeout_def clearTimeout_def Let_def
          split: option.splits)
    then show ?thesis
      by (simp add: oneTimer_def)
  qed
next
  case (Frame now)
  then show ?thesis
    using assms animatePhysics_timers [of now "s\<lparr>frameQueue := tl (frameQueue s)\<rparr>" s']
    by (cases "frameQueue s") (auto simp: oneTimer_def)
next
  case Timeout
  show ?thesis
  proof (cases "timerQueue s")
    case Nil
    then show ?thesis using Timeout assms by simp
  next
    case (Cons h hs)
    define t where "t = s\<lparr>timerQueue := hs, isExternalForceActive := False, debounceTimer := None\<rparr>"
    have hs: "hs = []"
      using Cons assms(1) by (auto simp: oneTimer_def split: option.splits)
    have "s' = stabilizeWheel (snd (isWheelStable t)) \<or> s' = snd (isWheelStable t)"
      using Timeout Cons assms(2)
      by (auto simp: onDebounceTimeout_def t_def Let_def split: prod.splits if_splits)
    then show ?thesis
      using hs by (auto simp: oneTimer_def t_def)
  qed
qed (use assms handlers_timers in \<open>auto simp: oneTimer_def\<close>)

lemma run_oneTimer:
  "oneTimer s \<Longrightarrow> run evs s = Inr s' \<Longrightarrow> oneTimer s'"
proof (induction evs arbitrary: s)
  case Nil
  then show ?case by simp
next
  case (Cons e evs)
  then show ?case
    by (auto split: sum.splits dest: deliver_oneTimer)
qed

lemma at_most_one_debounce_timer:
  assumes "run evs (constructed its ease inv_ease) = Inr s"
  shows "length (timerQueue s) \<le> 1"
proof -
  have "oneTimer (constructed its ease inv_ease)"
    by (simp add: oneTimer_def constructed_def)
  then have "oneTimer s"
    using assms run_oneTimer by blast
  then show ?thesis
    by (simp add: oneTimer_def split: option.splits)
qed

text \<open>
  C5, the code at two starts in a row. From rest, the first ArrowDown requests a frame
  and leaves \<^verbatim>\<open>_animating\<close> unset, so the guard of \<^verbatim>\<open>_startPhysicsAnimation\<close> lets
  the second ArrowDown request another: two frame callbacks are pending.
\<close>

theorem two_starts_request_two_frames:
  "frameQueue (onKeyDown ''ArrowDown'' picker5) = [1]
   \<and> animating (onKeyDown ''ArrowDown'' picker5) = None
   \<and> frameQueue (startPhysicsAnimation (onKeyDown ''ArrowDown'' picker5)) = [1, 2]
   \<and> (case run [KeyDown ''ArrowDown'', KeyDown ''ArrowDown''] picker5 of
         Inr s \<Rightarrow> frameQueue s = [1, 2] \<and> pendingScroll s = 48
       | Inl err \<Rightarrow> False)"
  by (simp add: picker_defs)

subsection \<open>The increment of a settling frame\<close>

lemma curveIncrement_nonneg:
  assumes mono: "\<forall>x y. 0 \<le> x \<and> x \<le> y \<and> y \<le> 1 \<longrightarrow> easingFunction s x \<le> easingFunction s y"
    and inv: "\<forall>y. 0 \<le> y \<and> y < 1 \<longrightarrow>
                0 \<le> inverseEasingFunction s y \<and> inverseEasingFunction s y \<le> 1"
    and dur: "0 < animationDuration s"
    and pos: "0 \<le> currentScroll s"
    and pend: "pendingScroll s \<noteq> 0"
    and delta: "0 \<le> delta"
  shows "0 \<le> curveIncrement delta s"
proof -
  define T where "T = shrunkenAnimationTime s"
  define u where "u = inverseEasingFunction s (scrollOffset s / ITEM_HEIGHT)"
  have T: "0 < T"
    using dur pend by (simp add: T_def shrunkenAnimationTime_def ITEM_HEIGHT_def)
  have "0 \<le> scrollOffset s / ITEM_HEIGHT \<and> scrollOffset s / ITEM_HEIGHT < 1"
    using scrollOffset_nonneg [OF pos] scrollOffset_less [OF pos] by (simp add: ITEM_HEIGHT_def)
  then have u: "0 \<le> u" "u \<le> 1"
    using inv by (simp_all add: u_def)
  have frac: "u * T / T = u" "(u * T + delta) / T = u + delta / T"
    using T by (simp_all add: add_divide_distrib)
  have "0 \<le> delta / T"
    using delta T by simp
  then have "0 \<le> min 1 u \<and> min 1 u \<le> min 1 (u + delta / T) \<and> min 1 (u + delta / T) \<le> 1"
    using u by simp
  then have "easingFunction s (min 1 u) \<le> easingFunction s (min 1 (u + delta / T))"
    using mono by blast
  moreover have "curveIncrement delta s
      = easingFunction s (min 1 (u + delta / T)) * ITEM_HEIGHT
        - easingFunction s (min 1 u) * ITEM_HEIGHT"
    unfolding curveIncrement_def Let_def T_def [symmetric] u_def [symmetric] frac ..
  ultimately show ?thesis
    by (simp add: ITEM_HEIGHT_def)
qed

lemma appliedIncrement_bounds:
  assumes "0 \<le> curveIncrement delta s"
  shows "\<bar>appliedIncrement delta s\<bar> \<le> \<bar>pendingScroll s\<bar>"
    and "appliedIncrement delta s = 0 \<or> sgn (appliedIncrement delta s) = sgn (pendingScroll s)"
    and "\<bar>pendingScroll s - appliedIncrement delta s\<bar> \<le> \<bar>pendingScroll s\<bar>"
    and "pendingScroll s - appliedIncrement delta s = 0
       \<or> sgn (pendingScroll s - appliedIncrement delta s) = sgn (pendingScroll s)"
proof -
  define p where "p = pendingScroll s"
  define m where "m = min \<bar>p\<bar> (curveIncrement delta s)"
  have m: "0 \<le> m" "m \<le> \<bar>p\<bar>"
    using assms by (simp_all add: m_def)
  have dx: "appliedIncrement delta s = sgn p * m"
    by (simp add: appliedIncrement_def p_def m_def)
  consider "p < 0" | "p = 0" | "0 < p" by linarith
  then have "\<bar>sgn p * m\<bar> \<le> \<bar>p\<bar> \<and> (sgn p * m = 0 \<or> sgn (sgn p * m) = sgn p)
     \<and> \<bar>p - sgn p * m\<bar> \<le> \<bar>p\<bar> \<and> (p - sgn p * m = 0 \<or> sgn (p - sgn p * m) = sgn p)"
  proof cases
    case 1
    then show ?thesis using m by (auto simp: sgn_real_def)
  next
    case 2
    then show ?thesis using m by simp
  next
    case 3
    then show ?thesis using m by (auto simp: sgn_real_def)
  qed
  then show "\<bar>appliedIncrement delta s\<bar> \<le> \<bar>pendingScroll s\<bar>"
    and "appliedIncrement delta s = 0 \<or> sgn (appliedIncrement delta s) = sgn (pendingScroll s)"
    and "\<bar>pendingScroll s - appliedIncrement delta s\<bar> \<le> \<bar>pendingScroll s\<bar>"
    and "pendingScroll s - appliedIncrement delta s = 0
       \<or> sgn (pendingScroll s - appliedIncrement delta s) = sgn (pendingScroll s)"
    unfolding dx p_def [symmetric] by blast+
qed

lemma settling_branch:
  assumes "\<not> approxEq (pendingScroll (absorbAtBounds s)) 0"
  shows "absorbAtBounds s = s" and "\<not> approxEq (pendingScroll s) 0" and "pendingScroll s \<noteq> 0"
proof -
  show a: "absorbAtBounds s = s"
    using assms by (auto simp: absorbAtBounds_def approxEq_def EFFECTIVELY_ZERO_def split: if_splits)
  show b: "\<not> approxEq (pendingScroll s) 0"
    using assms a by simp
  show "pendingScroll s \<noteq> 0"
    using b by (auto simp: approxEq_def EFFECTIVELY_ZERO_def)
qed

lemma settling_step:
  assumes "lastTimestamp s = Some lastTs" and "lastTs \<noteq> 0"
    and "\<not> approxEq (pendingScroll (absorbAtBounds s)) 0"
    and "0 \<le> currentScroll s"
  shows "animatePhysics now s = Inr (rescheduleFrame
           (s\<lparr>currentScroll := animateScroll (appliedIncrement (now - lastTs) s) s,
              pendingScroll := pendingScroll s - appliedIncrement (now - lastTs) s,
              lastTimestamp := Some now\<rparr>))"
  using assms(1,2) settling_branch [OF assms(3)] scrollOffset_nonneg [OF assms(4)]
  by (simp add: animatePhysics_def stepFrame_def settleFrame_def Let_def)

text \<open>
  C8, as the code has it. Take a frame step that is not the bootstrap frame and
  reaches the settling branch (the displacement left by the sentinel checks is outside
  the tolerance of zero), with a timestamp not before the last one, a positive
  duration, a position that is not negative, an easing function that is monotone on
  \<open>[0, 1]\<close> and an inverse easing with values in \<open>[0, 1]\<close>. The step subtracts the applied
  increment \<^verbatim>\<open>dx\<close> from the pending displacement; \<open>\<bar>dx\<bar> \<le> \<bar>pendingScroll\<bar>\<close>; \<^verbatim>\<open>dx\<close> is
  zero or has the sign of the pending displacement; so the magnitude of the pending
  displacement does not grow and its sign does not flip.
\<close>

theorem applied_increment_never_overshoots:
  assumes mono: "\<forall>x y. 0 \<le> x \<and> x \<le> y \<and> y \<le> 1 \<longrightarrow> easingFunction s x \<le> easingFunction s y"
    and inv: "\<forall>y. 0 \<le> y \<and> y < 1 \<longrightarrow>
                0 \<le> inverseEasingFunction s y \<and> inverseEasingFunction s y \<le> 1"
    and dur: "0 < animationDuration s"
    and pos: "0 \<le> currentScroll s"
    and last: "lastTimestamp s = Some lastTs" "lastTs \<noteq> 0" "lastTs \<le> now"
    and pend: "\<not> approxEq (pendingScroll (absorbAtBounds s)) 0"
  shows "\<exists>s'. animatePhysics now s = Inr s'
      \<and> pendingScroll s' = pendingScroll s - appliedIncrement (now - lastTs) s
      \<and> \<bar>appliedIncrement (now - lastTs) s\<bar> \<le> \<bar>pendingScroll s\<bar>
      \<and> (appliedIncrement (now - lastTs) s = 0
         \<or> sgn (appliedIncrement (now - lastTs) s) = sgn (pendingScroll s))
      \<and> \<bar>pendingScroll s'\<bar> \<le> \<bar>pendingScroll s\<bar>
      \<and> (pendingScroll s' = 0 \<or> sgn (pendingScroll s') = sgn (pendingScroll s))"
proof -
  have "0 \<le> curveIncrement (now - lastTs) s"
    using curveIncrement_nonneg [OF mono inv dur pos settling_branch(3) [OF pend]] last(3) by simp
  note b = appliedIncrement_bounds [OF this]
  show ?thesis
    unfolding settling_step [OF last(1,2) pend pos, of now]
    using b by simp
qed

theorem applied_increment_never_overshoots_witness:
  "\<exists>s'. animatePhysics 1060 settlingStart = Inr s'
      \<and> appliedIncrement (1060 - 1000) settlingStart = 8
      \<and> pendingScroll settlingStart = 24 \<and> pendingScroll s' = 16"
proof -
  have mono: "\<forall>x y. 0 \<le> x \<and> x \<le> y \<and> y \<le> 1 \<longrightarrow>
      easingFunction settlingStart x \<le> easingFunction settlingStart y"
    and inv: "\<forall>y. 0 \<le> y \<and> y < 1 \<longrightarrow>
      0 \<le> inverseEasingFunction settlingStart y \<and> inverseEasingFunction settlingStart y \<le> 1"
    and dur: "0 < animationDuration settlingStart"
    and pos: "0 \<le> currentScroll settlingStart"
    and last: "lastTimestamp settlingStart = Some 1000" "(1000::real) \<noteq> 0" "(1000::real) \<le> 1060"
    and pend: "\<not> approxEq (pendingScroll (absorbAtBounds settlingStart)) 0"
    by (simp_all add: settlingStart_def picker_defs)
  have "appliedIncrement (1060 - 1000) settlingStart = 8" "pendingScroll settlingStart = 24"
    by (simp_all add: settlingStart_def picker_defs)
  then show ?thesis
    using applied_increment_never_overshoots [OF mono inv dur pos last pend] by auto
qed

text \<open>
  C8 as stated fails where the increment is zero. After two ArrowDown keys two frame
  callbacks are requested; the first bootstraps at time 1000 and the second runs with
  the same timestamp, so the elapsed time is zero, \<^verbatim>\<open>dx\<close> is zero and its sign is
  not the sign of the pending displacement.
\<close>

theorem applied_increment_zero_counterexample:
  "case run [KeyDown ''ArrowDown'', KeyDown ''ArrowDown'', Frame 1000] picker5 of
     Inr s \<Rightarrow> lastTimestamp s = Some 1000 \<and> frameQueue s = [2, 3]
              \<and> \<not> approxEq (pendingScroll (absorbAtBounds s)) 0
              \<and> appliedIncrement (1000 - 1000) s = 0
              \<and> sgn (appliedIncrement (1000 - 1000) s) \<noteq> sgn (pendingScroll s)
   | Inl err \<Rightarrow> False"
  by (simp add: picker_defs)

subsection \<open>The run after one ArrowDown\<close>









subsection \<open>The offset around the second item\<close>






subsection \<open>The increment along a curve of positive slope\<close>






subsection \<open>One frame on the way to the second item\<close>

lemma framesSuffice_frameQueue [simp]:
  "framesSuffice q n (s\<lparr>frameQueue := fq\<rparr>) = framesSuffice q n s"
  by (simp add: framesSuffice_def rank_def)







subsection \<open>The loop ends on the second item\<close>






subsection \<open>The claim about the run after one ArrowDown\<close>

lemma staleSelection_reached:
  "run [KeyDown ''ArrowDown'', Frame 1000, Frame 1200, Frame 1216,
        Wheel (- 49 / 2), Frame 2000, Frame 2200, Frame 2216, Timeout] picker5
   = Inr staleSelection"
  by (simp add: staleSelection_def onWheelHandler_def onDebounceTimeout_def setTimeout_def
      clearTimeout_def picker_defs)

text \<open>
  The snap at work: a frame that comes \<open>3 * 10 ^ - 10\<close> ms after the bootstrap frame
  moves the wheel by \<open>4 * 10 ^ - 11\<close>; the position is snapped back to 0 and the
  displacement is reduced all the same. So frames that follow each other arbitrarily
  fast use up the displacement while the wheel stays on the first item.
\<close>

lemma snap_keeps_position_while_displacement_shrinks:
  "case deliver (Frame (1000 + 3 / 10 ^ 10)) (settlingStart\<lparr>frameQueue := [2]\<rparr>) of
     Inr s \<Rightarrow> currentScroll s = 0 \<and> pendingScroll s = 24 - 4 / 10 ^ 11
   | Inl err \<Rightarrow> False"
  by (simp add: picker_defs)

text \<open>
  At a usual frame rate the snap leaves a residue: after the fourth of the frames
  \<open>driftingFrames\<close> nothing is pending and the wheel rests \<open>1.8 * 10 ^ - 10\<close> before
  the second item, which \<^verbatim>\<open>_isWheelStable\<close> does not accept; the stabilization pulse
  asks for the rest.
\<close>

lemma drifting_run_needs_the_pulse:
  "\<exists>s. run (KeyDown ''ArrowDown'' # map Frame (take 4 driftingFrames)) picker5 = Inr s
     \<and> currentScroll s = 24 - 9 / (5 * 10 ^ 10) \<and> pendingScroll s = 0
     \<and> fst (isWheelStable s) = False
     \<and> pendingScroll (stabilizeWheel s) = 9 / (5 * 10 ^ 10)"
  by (simp add: driftingFrames_def picker_defs)




end
